theory Spec2Isabelle
  imports Main "HOL-Library.Word"
begin

unbundle bit_operations_syntax

section \<open>The pipe device of \<open>pipe.c\<close>\<close>

text \<open>
  The module keeps one \<open>struct pipe\<close> per device: a ring buffer with a read offset, a
  write offset and a byte count, two wait queues and a mutex. The four file operations
  \<open>pipe_open\<close>, \<open>pipe_read\<close>, \<open>pipe_write\<close> and \<open>pipe_release\<close> are embedded below as
  functions on the record \<open>pipe\<close>.

  \<^item> The \<open>int\<close> fields are 32-bit words, the \<open>size_t\<close> and \<open>ssize_t\<close> locals are
    64-bit words; every conversion the C code performs implicitly is written out
    (\<open>scast\<close> sign-extends an \<open>int\<close>, \<open>ucast\<close> truncates to an \<open>int\<close>), and a
    comparison is signed or unsigned as C's usual arithmetic conversions make it.
  \<^item> The buffer \<open>p_rbuf\<close> is \<open>None\<close> for the null pointer and \<open>Some bytes\<close> for an
    allocated block.
  \<^item> What a call does to the mutex and the wait queues, and every call of the user-copy
    primitives, is recorded in program order as a list of \<open>event\<close>s.
  \<^item> A call ends with \<open>Ok v\<close> (the value returned), \<open>Err e\<close> (it returned \<open>-e\<close>),
    \<open>Blocked q\<close> (it is asleep on queue \<open>q\<close> and nothing more is known to happen), or
    \<open>Undefined\<close> (it accessed memory outside the buffer).
\<close>

subsection \<open>Data\<close>

type_synonym byte = "8 word"
type_synonym c_int = "32 word"
type_synonym size_t = "64 word"

text \<open>\<open>struct pipe\<close>; the queues, the mutex and the \<open>cdev\<close> carry no data of their own.\<close>

record pipe =
  p_rbuf :: "byte list option"
  p_readp :: c_int
  p_writep :: c_int
  p_count :: c_int
  p_size :: c_int
  p_nr_readers :: c_int
  p_nr_writers :: c_int

text \<open>The fields of \<open>struct file\<close> the driver looks at.\<close>

record struct_file =
  f_mode :: "32 word"
  f_flags :: "32 word"

text \<open>Values of \<open>linux/fs.h\<close> and \<open>asm-generic/fcntl.h\<close>.\<close>

definition FMODE_READ :: "32 word" where
  "FMODE_READ = 1"

definition FMODE_WRITE :: "32 word" where
  "FMODE_WRITE = 2"

definition O_NONBLOCK :: "32 word" where
  "O_NONBLOCK = 2048"

datatype waitq = P_readq | P_writeq

datatype errno = ERESTARTSYS | EAGAIN | EFAULT | ENOMEM

datatype event =
    Lock
  | Unlock
  | Sleep waitq
  | Wake waitq
  | CopyToUser int nat nat nat
  | CopyFromUser int nat nat nat
  | Overrun int nat

text \<open>
  \<open>CopyToUser koff uoff n r\<close>: \<open>copy_to_user(buf + uoff, p_rbuf + koff, n)\<close> returned \<open>r\<close>,
  the number of bytes it could not copy; likewise \<open>CopyFromUser\<close>.
  \<open>Overrun koff n\<close>: a copy of \<open>n\<close> bytes at \<open>p_rbuf + koff\<close> left the allocated block.
\<close>

datatype 'a result = Ok 'a | Err errno | Blocked waitq | Undefined

text \<open>
  What the rest of the system does while a call sleeps in \<open>wait_event_interruptible\<close>:
  either a signal arrives, or the wait ends because its condition was seen to hold; then
  the caller takes the mutex again (the flag tells whether it got it) and finds the pipe
  as the other threads left it.
\<close>

datatype wakeup = Signal | Woken pipe bool

text \<open>
  The environment of one call: whether the first \<open>mutex_lock_interruptible\<close> gets the
  mutex, whether \<open>kzalloc\<close> finds memory, and what happens at each sleep.
\<close>

record env =
  e_lock :: bool
  e_alloc :: bool
  e_wake :: "wakeup list"

subsection \<open>The kernel primitives\<close>

text \<open>\<open>kzalloc(n, GFP_KERNEL)\<close>: a zeroed block of \<open>n\<close> bytes, or the null pointer.\<close>

definition kzalloc :: "bool \<Rightarrow> size_t \<Rightarrow> byte list option" where
  "kzalloc ok n = (if ok then Some (replicate (unat n) 0) else None)"

text \<open>
  The user buffer is the list of the bytes that are accessible from \<open>buf\<close> on; an access
  behind its end faults. \<open>copy_to_user(buf + uoff, kbuf + koff, n)\<close> copies as many of the
  \<open>n\<close> bytes as the user buffer takes and returns how many are left. The result is
  \<open>None\<close> when the bytes read do not lie inside the kernel block.
\<close>

definition copy_to_user ::
  "byte list \<Rightarrow> nat \<Rightarrow> byte list option \<Rightarrow> int \<Rightarrow> nat \<Rightarrow> (byte list \<times> nat) option" where
  "copy_to_user ubuf uoff kbuf koff n =
     (let m = min n (length ubuf - uoff) in
      if m = 0 then Some (ubuf, n)
      else case kbuf of
             None \<Rightarrow> None
           | Some ks \<Rightarrow>
               if 0 \<le> koff \<and> nat koff + m \<le> length ks
               then Some (take uoff ubuf @ take m (drop (nat koff) ks) @ drop (uoff + m) ubuf,
                          n - m)
               else None)"

text \<open>
  \<open>copy_from_user(kbuf + koff, buf + uoff, n)\<close> copies what is accessible, fills the rest
  of the \<open>n\<close> destination bytes with zeros and returns how many bytes it could not copy.
  The result is \<open>None\<close> when the \<open>n\<close> destination bytes do not lie inside the kernel block.
\<close>

definition copy_from_user ::
  "byte list option \<Rightarrow> int \<Rightarrow> byte list \<Rightarrow> nat \<Rightarrow> nat \<Rightarrow> (byte list option \<times> nat) option" where
  "copy_from_user kbuf koff ubuf uoff n =
     (if n = 0 then Some (kbuf, 0)
      else case kbuf of
             None \<Rightarrow> None
           | Some ks \<Rightarrow>
               if 0 \<le> koff \<and> nat koff + n \<le> length ks
               then (let m = min n (length ubuf - uoff);
                         bs = take m (drop uoff ubuf) @ replicate (n - m) 0
                     in Some (Some (take (nat koff) ks @ bs @ drop (nat koff + n) ks), n - m))
               else None)"

subsection \<open>\<open>pipe_open\<close> and \<open>pipe_release\<close>\<close>

text \<open>\<open>pipe_size\<close> is the module parameter; the call returns what \<open>nonseekable_open\<close> returns, 0.\<close>

definition pipe_open :: "env \<Rightarrow> c_int \<Rightarrow> struct_file \<Rightarrow> pipe \<Rightarrow> c_int result \<times> pipe \<times> event list" where
  "pipe_open e pipe_size filp pipe =
     (if \<not> e_lock e then (Err ERESTARTSYS, pipe, [])
      else
        let rbuf = (if p_rbuf pipe = None then kzalloc (e_alloc e) (scast pipe_size)
                    else p_rbuf pipe)
        in if rbuf = None then (Err ENOMEM, pipe\<lparr>p_rbuf := rbuf\<rparr>, [Lock, Unlock])
           else
             let pipe1 = pipe\<lparr>p_rbuf := rbuf, p_size := pipe_size,
                              p_readp := 0, p_writep := 0, p_count := 0\<rparr>;
                 pipe2 = (if f_mode filp AND FMODE_READ \<noteq> 0
                          then pipe1\<lparr>p_nr_readers := p_nr_readers pipe1 + 1\<rparr> else pipe1);
                 pipe3 = (if f_mode filp AND FMODE_WRITE \<noteq> 0
                          then pipe2\<lparr>p_nr_writers := p_nr_writers pipe2 + 1\<rparr> else pipe2)
             in (Ok 0, pipe3, [Lock, Unlock]))"

definition pipe_release :: "struct_file \<Rightarrow> pipe \<Rightarrow> c_int result \<times> pipe \<times> event list" where
  "pipe_release filp pipe =
     (let pipe1 = (if f_mode filp AND FMODE_READ \<noteq> 0
                   then pipe\<lparr>p_nr_readers := p_nr_readers pipe - 1\<rparr> else pipe);
          pipe2 = (if f_mode filp AND FMODE_WRITE \<noteq> 0
                   then pipe1\<lparr>p_nr_writers := p_nr_writers pipe1 - 1\<rparr> else pipe1);
          pipe3 = (if p_nr_readers pipe2 + p_nr_writers pipe2 = 0
                   then pipe2\<lparr>p_rbuf := None\<rparr> else pipe2)
      in (Ok 0, pipe3, [Lock, Unlock]))"

subsection \<open>\<open>pipe_read\<close>\<close>

text \<open>
  The loop \<open>while (!pipe->p_count)\<close>, entered with the mutex held. It ends with the pipe
  on which the transfer goes on (mutex held), or with the result of the call.
\<close>

fun read_wait ::
  "struct_file \<Rightarrow> wakeup list \<Rightarrow> pipe \<Rightarrow> (size_t result + unit) \<times> pipe \<times> event list" where
  "read_wait filp ws pipe =
     (if p_count pipe \<noteq> 0 then (Inr (), pipe, [])
      else if f_flags filp AND O_NONBLOCK \<noteq> 0 then (Inl (Err EAGAIN), pipe, [Unlock])
      else case ws of
             [] \<Rightarrow> (Inl (Blocked P_readq), pipe, [Unlock, Sleep P_readq])
           | Signal # _ \<Rightarrow> (Inl (Err ERESTARTSYS), pipe, [Unlock, Sleep P_readq])
           | Woken pipe' locked # ws' \<Rightarrow>
               if \<not> locked then (Inl (Err ERESTARTSYS), pipe', [Unlock, Sleep P_readq])
               else (case read_wait filp ws' pipe' of
                       (r, pipe'', tr) \<Rightarrow> (r, pipe'', [Unlock, Sleep P_readq, Lock] @ tr)))"

text \<open>
  The transfer, from the clamp of \<open>count\<close> to the return. The result also holds the
  user buffer as the call leaves it.
\<close>

definition read_xfer ::
  "pipe \<Rightarrow> size_t \<Rightarrow> byte list \<Rightarrow> size_t result \<times> pipe \<times> byte list \<times> event list" where
  "read_xfer pipe count0 buf =
     (let count = (if count0 > scast (p_count pipe) then scast (p_count pipe) else count0) in
      if p_readp pipe <s p_writep pipe then
        (case copy_to_user buf 0 (p_rbuf pipe) (sint (p_readp pipe)) (unat count) of
           None \<Rightarrow> (Undefined, pipe, buf, [Overrun (sint (p_readp pipe)) (unat count)])
         | Some (buf1, r1) \<Rightarrow>
             let ev1 = CopyToUser (sint (p_readp pipe)) 0 (unat count) r1 in
             if r1 \<noteq> 0 then (Err EFAULT, pipe, buf1, [ev1, Unlock])
             else
               let readp1 = (ucast (scast (p_readp pipe) + count) :: c_int);
                   readp2 = (if readp1 = p_size pipe then 0 else readp1);
                   pipe1 = pipe\<lparr>p_readp := readp2\<rparr>;
                   pipe2 = pipe1\<lparr>p_count := ucast (scast (p_count pipe1) - count)\<rparr>
               in (Ok count, pipe2, buf1, [ev1, Unlock, Wake P_writeq]))
      else
        (let topcount0 = (scast (p_size pipe - p_readp pipe) :: size_t);
             topcount = (if topcount0 > count then count else topcount0)
         in case copy_to_user buf 0 (p_rbuf pipe) (sint (p_readp pipe)) (unat topcount) of
              None \<Rightarrow>
                (Undefined, pipe, buf, [Overrun (sint (p_readp pipe)) (unat topcount)])
            | Some (buf1, r1) \<Rightarrow>
                let ev1 = CopyToUser (sint (p_readp pipe)) 0 (unat topcount) r1 in
                if r1 \<noteq> 0 then (Err EFAULT, pipe, buf1, [ev1, Unlock])
                else
                  (case (if count - topcount \<noteq> 0
                         then map_option (\<lambda>(b, r). (b, r, [CopyToUser 0 (unat topcount)
                                                              (unat (count - topcount)) r]))
                                (copy_to_user buf1 (unat topcount) (p_rbuf pipe) 0
                                   (unat (count - topcount)))
                         else Some (buf1, 0, [])) of
                     None \<Rightarrow>
                       (Undefined, pipe, buf1, [ev1, Overrun 0 (unat (count - topcount))])
                   | Some (buf2, r2, ev2) \<Rightarrow>
                       if r2 \<noteq> 0 then (Err EFAULT, pipe, buf2, ev1 # ev2 @ [Unlock])
                       else
                         let pipe1 = pipe\<lparr>p_readp := ucast (count - topcount)\<rparr>;
                             pipe2 = pipe1\<lparr>p_count := ucast (scast (p_count pipe1) - count)\<rparr>
                         in (Ok count, pipe2, buf2, ev1 # ev2 @ [Unlock, Wake P_writeq]))))"

definition pipe_read ::
  "env \<Rightarrow> struct_file \<Rightarrow> pipe \<Rightarrow> byte list \<Rightarrow> size_t \<Rightarrow>
   size_t result \<times> pipe \<times> byte list \<times> event list" where
  "pipe_read e filp pipe buf count =
     (if \<not> e_lock e then (Err ERESTARTSYS, pipe, buf, [])
      else case read_wait filp (e_wake e) pipe of
             (Inl r, pipe1, tr) \<Rightarrow> (r, pipe1, buf, Lock # tr)
           | (Inr _, pipe1, tr) \<Rightarrow>
               (case read_xfer pipe1 count buf of
                  (r, pipe2, buf2, tr2) \<Rightarrow> (r, pipe2, buf2, Lock # tr @ tr2)))"

subsection \<open>\<open>pipe_write\<close>\<close>

text \<open>The loop \<open>while (pipe->p_count == pipe->p_size)\<close>; it sleeps on \<open>p_readq\<close>.\<close>

fun write_wait ::
  "struct_file \<Rightarrow> wakeup list \<Rightarrow> pipe \<Rightarrow> (size_t result + unit) \<times> pipe \<times> event list" where
  "write_wait filp ws pipe =
     (if p_count pipe \<noteq> p_size pipe then (Inr (), pipe, [])
      else if f_flags filp AND O_NONBLOCK \<noteq> 0 then (Inl (Err EAGAIN), pipe, [Unlock])
      else case ws of
             [] \<Rightarrow> (Inl (Blocked P_readq), pipe, [Unlock, Sleep P_readq])
           | Signal # _ \<Rightarrow> (Inl (Err ERESTARTSYS), pipe, [Unlock, Sleep P_readq])
           | Woken pipe' locked # ws' \<Rightarrow>
               if \<not> locked then (Inl (Err ERESTARTSYS), pipe', [Unlock, Sleep P_readq])
               else (case write_wait filp ws' pipe' of
                       (r, pipe'', tr) \<Rightarrow> (r, pipe'', [Unlock, Sleep P_readq, Lock] @ tr)))"

definition write_xfer ::
  "pipe \<Rightarrow> size_t \<Rightarrow> byte list \<Rightarrow> size_t result \<times> pipe \<times> event list" where
  "write_xfer pipe count0 buf =
     (let count = (if count0 > scast (p_count pipe) then scast (p_count pipe) else count0) in
      if p_readp pipe <s p_writep pipe then
        (let topcount0 = (scast (p_size pipe - p_writep pipe) :: size_t);
             topcount = (if topcount0 > count then count else topcount0)
         in case copy_from_user (p_rbuf pipe) (sint (p_writep pipe)) buf 0 (unat topcount) of
              None \<Rightarrow> (Undefined, pipe, [Overrun (sint (p_writep pipe)) (unat topcount)])
            | Some (rbuf1, r1) \<Rightarrow>
                let ev1 = CopyFromUser (sint (p_writep pipe)) 0 (unat topcount) r1 in
                if r1 \<noteq> 0 then (Err EFAULT, pipe\<lparr>p_rbuf := rbuf1\<rparr>, [ev1, Unlock])
                else
                  (case (if count - topcount \<noteq> 0
                         then map_option (\<lambda>(b, r). (b, r, [CopyFromUser 0 (unat topcount)
                                                              (unat (count - topcount)) r]))
                                (copy_from_user rbuf1 0 buf (unat topcount)
                                   (unat (count - topcount)))
                         else Some (rbuf1, 0, [])) of
                     None \<Rightarrow>
                       (Undefined, pipe\<lparr>p_rbuf := rbuf1\<rparr>,
                        [ev1, Overrun 0 (unat (count - topcount))])
                   | Some (rbuf2, r2, ev2) \<Rightarrow>
                       if r2 \<noteq> 0
                       then (Err EFAULT, pipe\<lparr>p_rbuf := rbuf2\<rparr>, ev1 # ev2 @ [Unlock])
                       else
                         let pipe1 = pipe\<lparr>p_rbuf := rbuf2, p_writep := ucast (count - topcount)\<rparr>;
                             pipe2 = pipe1\<lparr>p_count := ucast (scast (p_count pipe1) + count)\<rparr>
                         in (Ok count, pipe2, ev1 # ev2 @ [Unlock, Wake P_readq])))
      else
        (case copy_from_user (p_rbuf pipe) (sint (p_writep pipe)) buf 0 (unat count) of
           None \<Rightarrow> (Undefined, pipe, [Overrun (sint (p_writep pipe)) (unat count)])
         | Some (rbuf1, r1) \<Rightarrow>
             let ev1 = CopyFromUser (sint (p_writep pipe)) 0 (unat count) r1 in
             if r1 \<noteq> 0 then (Err EFAULT, pipe\<lparr>p_rbuf := rbuf1\<rparr>, [ev1, Unlock])
             else
               let pipe1 = pipe\<lparr>p_rbuf := rbuf1,
                                p_writep := ucast (scast (p_writep pipe) + count)\<rparr>;
                   pipe2 = pipe1\<lparr>p_count := ucast (scast (p_count pipe1) + count)\<rparr>
               in (Ok count, pipe2, [ev1, Unlock, Wake P_readq])))"

definition pipe_write ::
  "env \<Rightarrow> struct_file \<Rightarrow> pipe \<Rightarrow> byte list \<Rightarrow> size_t \<Rightarrow> size_t result \<times> pipe \<times> event list" where
  "pipe_write e filp pipe buf count =
     (if \<not> e_lock e then (Err ERESTARTSYS, pipe, [])
      else case write_wait filp (e_wake e) pipe of
             (Inl r, pipe1, tr) \<Rightarrow> (r, pipe1, Lock # tr)
           | (Inr _, pipe1, tr) \<Rightarrow>
               (case write_xfer pipe1 count buf of
                  (r, pipe2, tr2) \<Rightarrow> (r, pipe2, Lock # tr @ tr2)))"

subsection \<open>Reading a trace\<close>

text \<open>Whether the mutex is held after the events of a trace, \<open>h\<close> telling whether it was before.\<close>

fun holds :: "bool \<Rightarrow> event list \<Rightarrow> bool" where
  "holds h [] = h"
| "holds h (Lock # tr) = holds True tr"
| "holds h (Unlock # tr) = holds False tr"
| "holds h (ev # tr) = holds h tr"

definition lock_held :: "event list \<Rightarrow> bool" where
  "lock_held tr = holds False tr"

text \<open>A user copy that returned a nonzero value.\<close>

fun is_fault :: "event \<Rightarrow> bool" where
  "is_fault (CopyToUser koff uoff n r) = (r \<noteq> 0)"
| "is_fault (CopyFromUser koff uoff n r) = (r \<noteq> 0)"
| "is_fault ev = False"

definition faulted :: "event list \<Rightarrow> bool" where
  "faulted tr = (filter is_fault tr \<noteq> [])"

subsection \<open>Sequences of calls\<close>

text \<open>The ring-buffer invariant: the count lies in \<open>[0, size]\<close>, both offsets in \<open>[0, size)\<close>.\<close>

definition pipe_inv :: "pipe \<Rightarrow> bool" where
  "pipe_inv pipe =
     (0 \<le>s p_count pipe \<and> p_count pipe \<le>s p_size pipe \<and>
      0 \<le>s p_readp pipe \<and> p_readp pipe <s p_size pipe \<and>
      0 \<le>s p_writep pipe \<and> p_writep pipe <s p_size pipe)"

text \<open>
  A call made while no other thread changes the pipe: a sleep ends with a signal or
  not at all. The first flag says whether the call gets the mutex, the second whether
  a signal arrives.
\<close>

definition alone :: "bool \<Rightarrow> bool \<Rightarrow> env" where
  "alone l s = \<lparr>e_lock = l, e_alloc = False, e_wake = (if s then [Signal] else [])\<rparr>"

datatype call =
    Read bool bool struct_file "byte list" size_t
  | Write bool bool struct_file "byte list" size_t

fun step :: "call \<Rightarrow> pipe \<Rightarrow> pipe" where
  "step (Read l s filp buf count) pipe = fst (snd (pipe_read (alone l s) filp pipe buf count))"
| "step (Write l s filp buf count) pipe = fst (snd (pipe_write (alone l s) filp pipe buf count))"

fun run :: "call list \<Rightarrow> pipe \<Rightarrow> pipe" where
  "run [] pipe = pipe"
| "run (c # cs) pipe = run cs (step c pipe)"

subsection \<open>Example values\<close>

text \<open>A pipe as \<open>pipe_mod_init\<close> leaves it (\<open>kzalloc\<close> zeroes the array of pipes).\<close>

definition ex_zeroed :: pipe where
  "ex_zeroed = \<lparr>p_rbuf = None, p_readp = 0, p_writep = 0, p_count = 0, p_size = 0,
                 p_nr_readers = 0, p_nr_writers = 0\<rparr>"

text \<open>A session opened \<open>O_RDWR\<close>, and one opened \<open>O_RDWR | O_NONBLOCK\<close>.\<close>

definition ex_rdwr :: struct_file where
  "ex_rdwr = \<lparr>f_mode = 3, f_flags = 2\<rparr>"

definition ex_nonblock :: struct_file where
  "ex_nonblock = \<lparr>f_mode = 3, f_flags = 2050\<rparr>"

text \<open>Every mutex is obtained, memory is available, nobody else touches the pipe.\<close>

definition ex_env :: env where
  "ex_env = \<lparr>e_lock = True, e_alloc = True, e_wake = []\<rparr>"

text \<open>The pipe after the first \<open>open\<close> of a module loaded with \<open>pipe_size=8\<close>.\<close>

definition ex_fresh8 :: pipe where
  "ex_fresh8 = fst (snd (pipe_open ex_env 8 ex_rdwr ex_zeroed))"

text \<open>A full pipe of size 8 holding the bytes 11, ..., 18, oldest first at offset 0.\<close>

definition ex_full8 :: pipe where
  "ex_full8 = \<lparr>p_rbuf = Some [11, 12, 13, 14, 15, 16, 17, 18], p_readp = 0, p_writep = 0,
                p_count = 8, p_size = 8, p_nr_readers = 1, p_nr_writers = 1\<rparr>"

text \<open>
  A pipe of size 8 whose six unread bytes 16, 17, 18, 11, 12, 13 wrap around the end of
  the buffer (\<open>p_writep < p_readp\<close>).
\<close>

definition ex_wrapped :: pipe where
  "ex_wrapped = \<lparr>p_rbuf = Some [11, 12, 13, 14, 15, 16, 17, 18], p_readp = 5, p_writep = 3,
                  p_count = 6, p_size = 8, p_nr_readers = 1, p_nr_writers = 1\<rparr>"

text \<open>A pipe of size 8 whose unread bytes are contiguous (\<open>p_readp < p_writep\<close>).\<close>

definition ex_contig :: pipe where
  "ex_contig = \<lparr>p_rbuf = Some [11, 12, 13, 14, 15, 16, 17, 18], p_readp = 1, p_writep = 6,
                 p_count = 5, p_size = 8, p_nr_readers = 1, p_nr_writers = 1\<rparr>"

text \<open>An environment in which the sleeper is woken once and finds the full pipe.\<close>

definition ex_woken :: env where
  "ex_woken = \<lparr>e_lock = True, e_alloc = True, e_wake = [Woken ex_full8 True]\<rparr>"

section \<open>Properties\<close>

declare read_wait.simps [simp del] write_wait.simps [simp del]

subsection \<open>Conversions and the wait loops\<close>

lemmas read_wait_unfold = read_wait.simps [of _ "[]"] read_wait.simps [of _ "_ # _"]

lemmas write_wait_unfold = write_wait.simps [of _ "[]"] write_wait.simps [of _ "_ # _"]

lemma ucast_scast_int: "(ucast (scast (x::c_int) :: size_t) :: c_int) = x"
  by (rule bit_word_eqI) (auto simp add: bit_simps)

lemma clamp_zero: "(if (0::size_t) < n then 0 else n) = 0"
  by (simp add: word_gt_0)

lemma read_wait_data: "p_count p \<noteq> 0 \<Longrightarrow> read_wait f ws p = (Inr (), p, [])"
  by (simp add: read_wait.simps)

lemma read_wait_nonblock:
  "p_count p = 0 \<Longrightarrow> f_flags f AND O_NONBLOCK \<noteq> 0 \<Longrightarrow>
   read_wait f ws p = (Inl (Err EAGAIN), p, [Unlock])"
  by (simp add: read_wait.simps)

lemma write_wait_space: "p_count p \<noteq> p_size p \<Longrightarrow> write_wait f ws p = (Inr (), p, [])"
  by (simp add: write_wait.simps)

lemma write_wait_nonblock:
  "p_count p = p_size p \<Longrightarrow> f_flags f AND O_NONBLOCK \<noteq> 0 \<Longrightarrow>
   write_wait f ws p = (Inl (Err EAGAIN), p, [Unlock])"
  by (simp add: write_wait.simps)

lemma ex_fresh8_eq:
  "ex_fresh8 = \<lparr>p_rbuf = Some [0, 0, 0, 0, 0, 0, 0, 0], p_readp = 0, p_writep = 0,
                 p_count = 0, p_size = 8, p_nr_readers = 1, p_nr_writers = 1\<rparr>"
proof -
  have n: "unat (scast (8::c_int) :: size_t) = 8"
    by simp
  have z: "replicate 8 (0::byte) = [0, 0, 0, 0, 0, 0, 0, 0]"
    by (simp add: eval_nat_numeral)
  show ?thesis
    by (simp add: ex_fresh8_def pipe_open_def ex_env_def ex_rdwr_def ex_zeroed_def kzalloc_def
        FMODE_READ_def FMODE_WRITE_def n z)
qed

subsection \<open>A write to an empty pipe\<close>

lemma write_xfer_empty:
  assumes "p_count p = 0"
  shows "write_xfer p n buf =
           (Ok 0, (if p_readp p <s p_writep p then p\<lparr>p_writep := 0\<rparr> else p),
            [CopyFromUser (sint (p_writep p)) 0 0 0, Unlock, Wake P_readq])"
proof -
  have c: "(if n > scast (p_count p) then scast (p_count p) else n) = (0::size_t)"
    using assms by (simp add: word_gt_0)
  show ?thesis
    unfolding write_xfer_def c
    by (simp add: assms clamp_zero copy_from_user_def ucast_scast_int)
qed

text \<open>
  C9. A write that finds the pipe empty (\<open>p_count = 0\<close>, on a pipe of nonzero size, the
  mutex obtained) transfers nothing whatever the requested count is: it asks the copy
  primitive for 0 bytes, leaves the buffer and the count as they are, returns 0, and
  after releasing the mutex wakes \<open>p_readq\<close>, the readers' queue. The clamp of the
  request to \<open>p_count\<close> is what makes the count 0. (With \<open>p_readp < p_writep\<close> the
  two-segment branch also stores \<open>count - topcount = 0\<close> into \<open>p_writep\<close>.)
\<close>

theorem write_on_empty_transfers_nothing:
  assumes "p_count p = 0" and "p_size p \<noteq> 0" and "e_lock e"
  shows "pipe_write e f p buf n =
           (Ok 0, (if p_readp p <s p_writep p then p\<lparr>p_writep := 0\<rparr> else p),
            [Lock, CopyFromUser (sint (p_writep p)) 0 0 0, Unlock, Wake P_readq])"
proof -
  from assms have "write_wait f (e_wake e) p = (Inr (), p, [])"
    by (simp add: write_wait_space)
  with assms show ?thesis
    by (simp add: pipe_write_def write_xfer_empty)
qed

theorem write_on_empty_transfers_nothing_witness:
  "p_count ex_fresh8 = 0 \<and> p_size ex_fresh8 \<noteq> 0 \<and> e_lock ex_env \<and>
   pipe_write ex_env ex_rdwr ex_fresh8 [1, 2, 3, 4, 5] 5 =
     (Ok 0, ex_fresh8, [Lock, CopyFromUser 0 0 0 0, Unlock, Wake P_readq])"
proof -
  have h1: "p_count ex_fresh8 = 0" by (simp add: ex_fresh8_eq)
  have h2: "p_size ex_fresh8 \<noteq> 0" by (simp add: ex_fresh8_eq)
  have h3: "e_lock ex_env" by (simp add: ex_env_def)
  have h4: "\<not> p_readp ex_fresh8 <s p_writep ex_fresh8" by (simp add: ex_fresh8_eq)
  have h5: "sint (p_writep ex_fresh8) = 0" by (simp add: ex_fresh8_eq)
  show ?thesis
    using write_on_empty_transfers_nothing [OF h1 h2 h3, of ex_rdwr "[1, 2, 3, 4, 5]" 5]
    by (simp add: h1 h2 h3 h4 h5)
qed

subsection \<open>Non-blocking sessions\<close>

text \<open>
  C7. In a non-blocking session (the mutex obtained), a read that finds \<open>p_count = 0\<close>
  returns \<open>-EAGAIN\<close> and leaves the whole pipe and the user buffer unchanged, and a write
  that finds \<open>p_count = p_size\<close> returns \<open>-EAGAIN\<close> and leaves the whole pipe unchanged;
  both release the mutex and wake nobody.
\<close>

theorem nonblocking_would_block:
  assumes "e_lock e" and "f_flags f AND O_NONBLOCK \<noteq> 0"
  shows "(p_count p = 0 \<longrightarrow>
            pipe_read e f p buf n = (Err EAGAIN, p, buf, [Lock, Unlock])) \<and>
         (p_count p = p_size p \<longrightarrow>
            pipe_write e f p buf n = (Err EAGAIN, p, [Lock, Unlock]))"
  using assms
  by (simp add: pipe_read_def pipe_write_def read_wait_nonblock write_wait_nonblock)

theorem nonblocking_would_block_witness:
  "e_lock ex_env \<and> f_flags ex_nonblock AND O_NONBLOCK \<noteq> 0 \<and>
   p_count ex_fresh8 = 0 \<and> p_count ex_full8 = p_size ex_full8 \<and>
   pipe_read ex_env ex_nonblock ex_fresh8 [0, 0, 0] 3 =
     (Err EAGAIN, ex_fresh8, [0, 0, 0], [Lock, Unlock]) \<and>
   pipe_write ex_env ex_nonblock ex_full8 [1, 2, 3] 3 = (Err EAGAIN, ex_full8, [Lock, Unlock])"
proof -
  have h1: "e_lock ex_env" by (simp add: ex_env_def)
  have h2: "f_flags ex_nonblock AND O_NONBLOCK \<noteq> 0" by (simp add: ex_nonblock_def O_NONBLOCK_def)
  have h3: "p_count ex_fresh8 = 0" by (simp add: ex_fresh8_eq)
  have h4: "p_count ex_full8 = p_size ex_full8" by (simp add: ex_full8_def)
  show ?thesis
    using nonblocking_would_block [OF h1 h2, of ex_fresh8 "[0, 0, 0]" 3]
      nonblocking_would_block [OF h1 h2, of ex_full8 "[1, 2, 3]" 3] h1 h2 h3 h4
    by simp
qed

subsection \<open>Faults of the copy primitives\<close>

text \<open>
  The wait loops call no copy primitive, and they end with the mutex held exactly when
  the call goes on to the transfer.
\<close>

lemma read_wait_trace:
  "read_wait f ws p = (r, p1, tw) \<Longrightarrow>
   filter is_fault tw = [] \<and> holds True tw = (r = Inr ())"
proof (induction ws arbitrary: p r p1 tw)
  case Nil
  then show ?case
    by (auto simp add: read_wait_unfold split: if_splits)
next
  case (Cons w ws)
  show ?case
  proof (cases w)
    case Signal
    with Cons.prems show ?thesis
      by (auto simp add: read_wait_unfold split: if_splits)
  next
    case (Woken q l)
    obtain r' p'' tr' where rw: "read_wait f ws q = (r', p'', tr')"
      by (cases "read_wait f ws q") auto
    from Cons.IH [OF rw] Cons.prems Woken rw show ?thesis
      by (auto simp add: read_wait_unfold split: if_splits)
  qed
qed

lemma write_wait_trace:
  "write_wait f ws p = (r, p1, tw) \<Longrightarrow>
   filter is_fault tw = [] \<and> holds True tw = (r = Inr ())"
proof (induction ws arbitrary: p r p1 tw)
  case Nil
  then show ?case
    by (auto simp add: write_wait_unfold split: if_splits)
next
  case (Cons w ws)
  show ?case
  proof (cases w)
    case Signal
    with Cons.prems show ?thesis
      by (auto simp add: write_wait_unfold split: if_splits)
  next
    case (Woken q l)
    obtain r' p'' tr' where rw: "write_wait f ws q = (r', p'', tr')"
      by (cases "write_wait f ws q") auto
    from Cons.IH [OF rw] Cons.prems Woken rw show ?thesis
      by (auto simp add: write_wait_unfold split: if_splits)
  qed
qed

lemma holds_append: "holds h (xs @ ys) = holds (holds h xs) ys"
  by (induction h xs rule: holds.induct) auto

lemma read_xfer_fault:
  "read_xfer p n buf = (r, p', buf', tr) \<Longrightarrow> filter is_fault tr \<noteq> [] \<Longrightarrow>
   r = Err EFAULT \<and> p' = p \<and> holds h tr = False"
  by (auto simp add: read_xfer_def Let_def split: if_splits option.splits prod.splits)

lemma write_xfer_fault:
  "write_xfer p n buf = (r, p', tr) \<Longrightarrow> filter is_fault tr \<noteq> [] \<Longrightarrow>
   r = Err EFAULT \<and> p' = p\<lparr>p_rbuf := p_rbuf p'\<rparr> \<and> holds h tr = False"
  by (auto simp add: write_xfer_def Let_def split: if_splits option.splits prod.splits)

lemma pipe_read_fault:
  assumes rd: "pipe_read e f p buf n = (r, p', buf', tr)" and ft: "faulted tr"
  shows "r = Err EFAULT \<and> \<not> lock_held tr \<and> p' = fst (snd (read_wait f (e_wake e) p))"
proof -
  obtain w p1 tw where rw: "read_wait f (e_wake e) p = (w, p1, tw)"
    by (cases "read_wait f (e_wake e) p") auto
  obtain rx px bx tx where rx: "read_xfer p1 n buf = (rx, px, bx, tx)"
    by (cases "read_xfer p1 n buf") auto
  from read_wait_trace [OF rw] have tw: "filter is_fault tw = []"
    by simp
  from rd ft rw rx tw have l: "e_lock e" and i: "w = Inr ()"
    and eq: "r = rx" "p' = px" "tr = Lock # tw @ tx" and fx: "filter is_fault tx \<noteq> []"
    by (auto simp add: pipe_read_def faulted_def split: if_splits sum.splits)
  from read_xfer_fault [OF rx fx] eq rw show ?thesis
    by (simp add: lock_held_def holds_append)
qed

lemma pipe_write_fault:
  assumes wr: "pipe_write e f p buf n = (r, p', tr)" and ft: "faulted tr"
  shows "r = Err EFAULT \<and> \<not> lock_held tr \<and>
         p' = (fst (snd (write_wait f (e_wake e) p)))\<lparr>p_rbuf := p_rbuf p'\<rparr>"
proof -
  obtain w p1 tw where ww: "write_wait f (e_wake e) p = (w, p1, tw)"
    by (cases "write_wait f (e_wake e) p") auto
  obtain rx px tx where wx: "write_xfer p1 n buf = (rx, px, tx)"
    by (cases "write_xfer p1 n buf") auto
  from write_wait_trace [OF ww] have tw: "filter is_fault tw = []"
    by simp
  from wr ft ww wx tw have l: "e_lock e" and i: "w = Inr ()"
    and eq: "r = rx" "p' = px" "tr = Lock # tw @ tx" and fx: "filter is_fault tx \<noteq> []"
    by (auto simp add: pipe_write_def faulted_def split: if_splits sum.splits)
  from write_xfer_fault [OF wx fx] eq ww show ?thesis
    by (simp add: lock_held_def holds_append)
qed

text \<open>
  C6. When a copy primitive returns nonzero in a read or a write, on the first segment
  or on the second, the call returns \<open>-EFAULT\<close>, the mutex is free at the end of the
  trace, and the pipe is the one on which the transfer began (the pipe the wait loop
  ended with, which is the pipe of the call when the call did not sleep): a read
  leaves it unchanged altogether, a write leaves \<open>p_readp\<close>, \<open>p_writep\<close>, \<open>p_count\<close> and
  every field but the buffer contents unchanged.
\<close>

theorem copy_fault_aborts:
  "(pipe_read e f p buf n = (r, p', buf', tr) \<and> faulted tr \<longrightarrow>
      r = Err EFAULT \<and> \<not> lock_held tr \<and> p' = fst (snd (read_wait f (e_wake e) p))) \<and>
   (pipe_write e f p buf n = (r2, p2, tr2) \<and> faulted tr2 \<longrightarrow>
      r2 = Err EFAULT \<and> \<not> lock_held tr2 \<and>
      p2 = (fst (snd (write_wait f (e_wake e) p)))\<lparr>p_rbuf := p_rbuf p2\<rparr>)"
  using pipe_read_fault [of e f p buf n r p' buf' tr] pipe_write_fault [of e f p buf n r2 p2 tr2]
  by blast

theorem copy_fault_aborts_witness:
  "pipe_read ex_env ex_rdwr ex_wrapped [0, 0, 0] 5 =
     (Err EFAULT, ex_wrapped, [16, 17, 18],
      [Lock, CopyToUser 5 0 3 0, CopyToUser 0 3 2 2, Unlock]) \<and>
   faulted [Lock, CopyToUser 5 0 3 0, CopyToUser 0 3 2 2, Unlock] \<and>
   \<not> lock_held [Lock, CopyToUser 5 0 3 0, CopyToUser 0 3 2 2, Unlock] \<and>
   ex_wrapped = fst (snd (read_wait ex_rdwr (e_wake ex_env) ex_wrapped)) \<and>
   pipe_write ex_env ex_rdwr ex_contig [1, 2, 3] 5 =
     (Err EFAULT, ex_contig\<lparr>p_rbuf := Some [3, 0, 0, 14, 15, 16, 1, 2]\<rparr>,
      [Lock, CopyFromUser 6 0 2 0, CopyFromUser 0 2 3 2, Unlock]) \<and>
   faulted [Lock, CopyFromUser 6 0 2 0, CopyFromUser 0 2 3 2, Unlock] \<and>
   \<not> lock_held [Lock, CopyFromUser 6 0 2 0, CopyFromUser 0 2 3 2, Unlock]"
proof -
  have r: "pipe_read ex_env ex_rdwr ex_wrapped [0, 0, 0] 5 =
     (Err EFAULT, ex_wrapped, [16, 17, 18],
      [Lock, CopyToUser 5 0 3 0, CopyToUser 0 3 2 2, Unlock])"
    by code_simp
  have w: "pipe_write ex_env ex_rdwr ex_contig [1, 2, 3] 5 =
     (Err EFAULT, ex_contig\<lparr>p_rbuf := Some [3, 0, 0, 14, 15, 16, 1, 2]\<rparr>,
      [Lock, CopyFromUser 6 0 2 0, CopyFromUser 0 2 3 2, Unlock])"
    by code_simp
  have fr: "faulted [Lock, CopyToUser 5 0 3 0, CopyToUser 0 3 2 2, Unlock]"
    by (simp add: faulted_def)
  have fw: "faulted [Lock, CopyFromUser 6 0 2 0, CopyFromUser 0 2 3 2, Unlock]"
    by (simp add: faulted_def)
  from copy_fault_aborts [where e = ex_env and f = ex_rdwr and p = ex_wrapped
      and buf = "[0, 0, 0]" and n = 5 and r = "Err EFAULT" and p' = ex_wrapped
      and buf' = "[16, 17, 18]"
      and tr = "[Lock, CopyToUser 5 0 3 0, CopyToUser 0 3 2 2, Unlock]"] r fr
  have lr: "\<not> lock_held [Lock, CopyToUser 5 0 3 0, CopyToUser 0 3 2 2, Unlock] \<and>
            ex_wrapped = fst (snd (read_wait ex_rdwr (e_wake ex_env) ex_wrapped))"
    by blast
  from copy_fault_aborts [where e = ex_env and f = ex_rdwr and p = ex_contig
      and buf = "[1, 2, 3]" and n = 5 and ?r2.0 = "Err EFAULT"
      and ?p2.0 = "ex_contig\<lparr>p_rbuf := Some [3, 0, 0, 14, 15, 16, 1, 2]\<rparr>"
      and ?tr2.0 = "[Lock, CopyFromUser 6 0 2 0, CopyFromUser 0 2 3 2, Unlock]"] w fw
  have lw: "\<not> lock_held [Lock, CopyFromUser 6 0 2 0, CopyFromUser 0 2 3 2, Unlock]"
    by blast
  from r w fr fw lr lw show ?thesis
    by blast
qed

subsection \<open>A read from an empty pipe\<close>

lemma read_wait_goes_on:
  "read_wait f ws p = (Inr u, p1, tw) \<Longrightarrow> p_count p = 0 \<Longrightarrow>
   Sleep P_readq \<in> set tw \<and> Woken p1 True \<in> set ws \<and> p_count p1 \<noteq> 0"
proof (induction ws arbitrary: p tw)
  case Nil
  then show ?case
    by (auto simp add: read_wait_unfold split: if_splits)
next
  case (Cons w ws)
  show ?case
  proof (cases w)
    case Signal
    with Cons.prems show ?thesis
      by (auto simp add: read_wait_unfold split: if_splits)
  next
    case (Woken q l)
    obtain r' p'' tr' where rw: "read_wait f ws q = (r', p'', tr')"
      by (cases "read_wait f ws q") auto
    show ?thesis
    proof (cases "p_count q = 0")
      case True
      from Cons.IH [OF _ True] Cons.prems Woken rw show ?thesis
        by (auto simp add: read_wait_unfold split: if_splits)
    next
      case False
      from Cons.prems Woken rw False read_wait_data [OF False, of f ws] show ?thesis
        by (auto simp add: read_wait_unfold split: if_splits)
    qed
  qed
qed

lemma read_wait_no_value:
  "read_wait f ws p = (Inl a, p1, tw) \<Longrightarrow> a \<noteq> Ok v"
proof (induction ws arbitrary: p tw)
  case Nil
  then show ?case
    by (auto simp add: read_wait_unfold split: if_splits)
next
  case (Cons w ws)
  show ?case
  proof (cases w)
    case Signal
    with Cons.prems show ?thesis
      by (auto simp add: read_wait_unfold split: if_splits)
  next
    case (Woken q l)
    obtain r' p'' tr' where rw: "read_wait f ws q = (r', p'', tr')"
      by (cases "read_wait f ws q") auto
    from Cons.IH [of q tr'] Cons.prems Woken rw show ?thesis
      by (auto simp add: read_wait_unfold split: if_splits)
  qed
qed

text \<open>
  C10. A read of 0 bytes from an empty pipe (the mutex obtained) does not return 0 at
  once, because the wait loop comes before the requested count is looked at: a
  non-blocking session gets \<open>-EAGAIN\<close>; a blocking one sleeps on \<open>p_readq\<close>, and stays
  asleep when nothing ever wakes it; and whenever the call does return a value, it has
  slept on \<open>p_readq\<close> and a wake-up has shown it a pipe with \<open>p_count \<noteq> 0\<close>, on which the
  transfer then ran.
\<close>

theorem read_of_zero_bytes_waits:
  assumes "p_count p = 0" and "e_lock e"
  shows "(f_flags f AND O_NONBLOCK \<noteq> 0 \<longrightarrow>
            pipe_read e f p buf 0 = (Err EAGAIN, p, buf, [Lock, Unlock])) \<and>
         (f_flags f AND O_NONBLOCK = 0 \<and> e_wake e = [] \<longrightarrow>
            pipe_read e f p buf 0 = (Blocked P_readq, p, buf, [Lock, Unlock, Sleep P_readq])) \<and>
         (pipe_read e f p buf 0 = (Ok v, p', buf', tr) \<longrightarrow>
            Sleep P_readq \<in> set tr \<and>
            Woken (fst (snd (read_wait f (e_wake e) p))) True \<in> set (e_wake e) \<and>
            p_count (fst (snd (read_wait f (e_wake e) p))) \<noteq> 0)"
proof -
  have a: "pipe_read e f p buf 0 = (Err EAGAIN, p, buf, [Lock, Unlock])"
    if "f_flags f AND O_NONBLOCK \<noteq> 0"
    using that assms by (simp add: pipe_read_def read_wait_nonblock)
  have b: "pipe_read e f p buf 0 = (Blocked P_readq, p, buf, [Lock, Unlock, Sleep P_readq])"
    if "f_flags f AND O_NONBLOCK = 0 \<and> e_wake e = []"
    using that assms by (simp add: pipe_read_def read_wait_unfold)
  have c: "Sleep P_readq \<in> set tr \<and>
        Woken (fst (snd (read_wait f (e_wake e) p))) True \<in> set (e_wake e) \<and>
        p_count (fst (snd (read_wait f (e_wake e) p))) \<noteq> 0"
    if rd: "pipe_read e f p buf 0 = (Ok v, p', buf', tr)"
  proof -
    obtain w p1 tw where rw: "read_wait f (e_wake e) p = (w, p1, tw)"
      by (cases "read_wait f (e_wake e) p") auto
    have i: "w = Inr ()"
    proof (cases w)
      case (Inl a)
      with rd rw assms have "a = Ok v"
        by (simp add: pipe_read_def)
      with rw Inl read_wait_no_value [of f "e_wake e" p a p1 tw v] show ?thesis
        by simp
    next
      case (Inr b)
      then show ?thesis by simp
    qed
    from rd rw i assms have "set tw \<subseteq> set tr"
      by (auto simp add: pipe_read_def split: prod.splits)
    with read_wait_goes_on [OF rw [unfolded i] assms(1)] rw show ?thesis
      by auto
  qed
  from a b c show ?thesis
    by blast
qed

theorem read_of_zero_bytes_waits_witness:
  "p_count ex_fresh8 = 0 \<and> e_lock ex_env \<and> e_lock ex_woken \<and>
   f_flags ex_nonblock AND O_NONBLOCK \<noteq> 0 \<and>
   f_flags ex_rdwr AND O_NONBLOCK = 0 \<and> e_wake ex_env = [] \<and>
   pipe_read ex_env ex_nonblock ex_fresh8 [] 0 = (Err EAGAIN, ex_fresh8, [], [Lock, Unlock]) \<and>
   pipe_read ex_env ex_rdwr ex_fresh8 [] 0 =
     (Blocked P_readq, ex_fresh8, [], [Lock, Unlock, Sleep P_readq]) \<and>
   pipe_read ex_woken ex_rdwr ex_fresh8 [] 0 =
     (Ok 0, ex_full8, [],
      [Lock, Unlock, Sleep P_readq, Lock, CopyToUser 0 0 0 0, Unlock, Wake P_writeq]) \<and>
   Woken ex_full8 True \<in> set (e_wake ex_woken) \<and> p_count ex_full8 \<noteq> 0"
proof -
  have h1: "p_count ex_fresh8 = 0" by (simp add: ex_fresh8_eq)
  have h2: "e_lock ex_env" by (simp add: ex_env_def)
  have h3: "e_lock ex_woken" by (simp add: ex_woken_def)
  have h4: "f_flags ex_nonblock AND O_NONBLOCK \<noteq> 0"
    by (simp add: ex_nonblock_def O_NONBLOCK_def)
  have h5: "f_flags ex_rdwr AND O_NONBLOCK = 0 \<and> e_wake ex_env = []"
    by (simp add: ex_rdwr_def O_NONBLOCK_def ex_env_def)
  have h6: "pipe_read ex_woken ex_rdwr ex_fresh8 [] 0 =
     (Ok 0, ex_full8, [],
      [Lock, Unlock, Sleep P_readq, Lock, CopyToUser 0 0 0 0, Unlock, Wake P_writeq])"
    by code_simp
  have h7: "fst (snd (read_wait ex_rdwr (e_wake ex_woken) ex_fresh8)) = ex_full8"
    by code_simp
  from read_of_zero_bytes_waits [OF h1 h2, of ex_nonblock "[]"] h4
  have a: "pipe_read ex_env ex_nonblock ex_fresh8 [] 0 = (Err EAGAIN, ex_fresh8, [], [Lock, Unlock])"
    by blast
  from read_of_zero_bytes_waits [OF h1 h2, of ex_rdwr "[]"] h5
  have b: "pipe_read ex_env ex_rdwr ex_fresh8 [] 0 =
     (Blocked P_readq, ex_fresh8, [], [Lock, Unlock, Sleep P_readq])"
    by blast
  from read_of_zero_bytes_waits [OF h1 h3, of ex_rdwr "[]" 0 ex_full8 "[]"
      "[Lock, Unlock, Sleep P_readq, Lock, CopyToUser 0 0 0 0, Unlock, Wake P_writeq]"] h6 h7
  have c: "Woken ex_full8 True \<in> set (e_wake ex_woken) \<and> p_count ex_full8 \<noteq> 0"
    by simp
  from h1 h2 h3 h4 h5 h6 a b c show ?thesis
    by blast
qed

subsection \<open>Closing and reopening\<close>

lemma pipe_release_eq:
  "pipe_release f p =
     (Ok 0,
      p\<lparr>p_nr_readers := (if f_mode f AND FMODE_READ \<noteq> 0 then p_nr_readers p - 1
                           else p_nr_readers p),
         p_nr_writers := (if f_mode f AND FMODE_WRITE \<noteq> 0 then p_nr_writers p - 1
                           else p_nr_writers p),
         p_rbuf := (if (if f_mode f AND FMODE_READ \<noteq> 0 then p_nr_readers p - 1
                        else p_nr_readers p) +
                       (if f_mode f AND FMODE_WRITE \<noteq> 0 then p_nr_writers p - 1
                        else p_nr_writers p) = 0
                    then None else p_rbuf p)\<rparr>,
      [Lock, Unlock])"
  by (simp add: pipe_release_def Let_def)

lemma pipe_open_alloc:
  assumes "p_rbuf p = None" and "e_lock e" and "e_alloc e"
  shows "pipe_open e pipe_size g p =
              (Ok 0,
               p\<lparr>p_rbuf := Some (replicate (unat (scast pipe_size :: size_t)) 0),
                   p_size := pipe_size, p_readp := 0, p_writep := 0, p_count := 0,
                   p_nr_readers := (if f_mode g AND FMODE_READ \<noteq> 0 then p_nr_readers p + 1
                                    else p_nr_readers p),
                   p_nr_writers := (if f_mode g AND FMODE_WRITE \<noteq> 0 then p_nr_writers p + 1
                                    else p_nr_writers p)\<rparr>,
               [Lock, Unlock])"
  using assms by (simp add: pipe_open_def kzalloc_def Let_def)

text \<open>
  C8. \<open>pipe_release\<close> returns 0 with the mutex released; it decrements \<open>p_nr_readers\<close>
  when the session was opened for reading and \<open>p_nr_writers\<close> when it was opened for
  writing, and it sets \<open>p_rbuf\<close> to the null pointer exactly when the sum of the two
  counters after the decrement is 0 (otherwise the buffer stays). After the last close,
  an \<open>open\<close> that gets the mutex and memory allocates a zeroed buffer of \<open>pipe_size\<close>
  bytes and sets \<open>p_count\<close>, \<open>p_readp\<close> and \<open>p_writep\<close> to 0.
\<close>

theorem release_then_open:
  assumes "pipe_release f p = (r, p', tr)"
  shows "r = Ok 0 \<and> \<not> lock_held tr \<and>
         p_nr_readers p' =
           (if f_mode f AND FMODE_READ \<noteq> 0 then p_nr_readers p - 1 else p_nr_readers p) \<and>
         p_nr_writers p' =
           (if f_mode f AND FMODE_WRITE \<noteq> 0 then p_nr_writers p - 1 else p_nr_writers p) \<and>
         p_rbuf p' = (if p_nr_readers p' + p_nr_writers p' = 0 then None else p_rbuf p) \<and>
         (p_nr_readers p' + p_nr_writers p' = 0 \<and> e_lock e \<and> e_alloc e \<longrightarrow>
            pipe_open e pipe_size g p' =
              (Ok 0,
               p'\<lparr>p_rbuf := Some (replicate (unat (scast pipe_size :: size_t)) 0),
                   p_size := pipe_size, p_readp := 0, p_writep := 0, p_count := 0,
                   p_nr_readers := (if f_mode g AND FMODE_READ \<noteq> 0 then p_nr_readers p' + 1
                                    else p_nr_readers p'),
                   p_nr_writers := (if f_mode g AND FMODE_WRITE \<noteq> 0 then p_nr_writers p' + 1
                                    else p_nr_writers p')\<rparr>,
               [Lock, Unlock]))"
proof -
  from assms have r: "r = fst (pipe_release f p)" and p': "p' = fst (snd (pipe_release f p))"
    and tr: "tr = snd (snd (pipe_release f p))"
    by simp_all
  have rd: "p_nr_readers p' =
           (if f_mode f AND FMODE_READ \<noteq> 0 then p_nr_readers p - 1 else p_nr_readers p)"
    and wr: "p_nr_writers p' =
           (if f_mode f AND FMODE_WRITE \<noteq> 0 then p_nr_writers p - 1 else p_nr_writers p)"
    by (simp_all add: p' pipe_release_eq)
  have bf: "p_rbuf p' = (if p_nr_readers p' + p_nr_writers p' = 0 then None else p_rbuf p)"
    unfolding rd wr by (simp add: p' pipe_release_eq)
  have op: "pipe_open e pipe_size g p' =
              (Ok 0,
               p'\<lparr>p_rbuf := Some (replicate (unat (scast pipe_size :: size_t)) 0),
                   p_size := pipe_size, p_readp := 0, p_writep := 0, p_count := 0,
                   p_nr_readers := (if f_mode g AND FMODE_READ \<noteq> 0 then p_nr_readers p' + 1
                                    else p_nr_readers p'),
                   p_nr_writers := (if f_mode g AND FMODE_WRITE \<noteq> 0 then p_nr_writers p' + 1
                                    else p_nr_writers p')\<rparr>,
               [Lock, Unlock])"
    if "p_nr_readers p' + p_nr_writers p' = 0 \<and> e_lock e \<and> e_alloc e"
  proof -
    from that bf have "p_rbuf p' = None"
      by simp
    with that show ?thesis
      by (simp only: pipe_open_alloc)
  qed
  have lk: "\<not> lock_held tr" and ok: "r = Ok 0"
    by (simp_all add: r tr pipe_release_eq lock_held_def)
  from ok lk rd wr bf op show ?thesis
    by blast
qed

theorem release_then_open_witness:
  "pipe_release ex_rdwr ex_fresh8 =
     (Ok 0, ex_fresh8\<lparr>p_rbuf := None, p_nr_readers := 0, p_nr_writers := 0\<rparr>, [Lock, Unlock]) \<and>
   p_nr_readers (ex_fresh8\<lparr>p_rbuf := None, p_nr_readers := 0, p_nr_writers := 0\<rparr>) +
   p_nr_writers (ex_fresh8\<lparr>p_rbuf := None, p_nr_readers := 0, p_nr_writers := 0\<rparr>) = 0 \<and>
   e_lock ex_env \<and> e_alloc ex_env \<and>
   pipe_open ex_env 8 ex_rdwr (ex_fresh8\<lparr>p_rbuf := None, p_nr_readers := 0, p_nr_writers := 0\<rparr>) =
     (Ok 0, ex_fresh8, [Lock, Unlock])"
proof -
  have h1: "pipe_release ex_rdwr ex_fresh8 =
     (Ok 0, ex_fresh8\<lparr>p_rbuf := None, p_nr_readers := 0, p_nr_writers := 0\<rparr>, [Lock, Unlock])"
    by code_simp
  have h2: "p_nr_readers (ex_fresh8\<lparr>p_rbuf := None, p_nr_readers := 0, p_nr_writers := 0\<rparr>) +
   p_nr_writers (ex_fresh8\<lparr>p_rbuf := None, p_nr_readers := 0, p_nr_writers := 0\<rparr>) = 0 \<and>
   e_lock ex_env \<and> e_alloc ex_env"
    by (simp add: ex_env_def)
  have h3: "(ex_fresh8\<lparr>p_rbuf := None, p_nr_readers := 0, p_nr_writers := 0\<rparr>)
      \<lparr>p_rbuf := Some (replicate (unat (scast (8::c_int) :: size_t)) 0),
        p_size := 8, p_readp := 0, p_writep := 0, p_count := 0,
        p_nr_readers := (if f_mode ex_rdwr AND FMODE_READ \<noteq> 0
           then p_nr_readers (ex_fresh8\<lparr>p_rbuf := None, p_nr_readers := 0, p_nr_writers := 0\<rparr>) + 1
           else p_nr_readers (ex_fresh8\<lparr>p_rbuf := None, p_nr_readers := 0, p_nr_writers := 0\<rparr>)),
        p_nr_writers := (if f_mode ex_rdwr AND FMODE_WRITE \<noteq> 0
           then p_nr_writers (ex_fresh8\<lparr>p_rbuf := None, p_nr_readers := 0, p_nr_writers := 0\<rparr>) + 1
           else p_nr_writers (ex_fresh8\<lparr>p_rbuf := None, p_nr_readers := 0, p_nr_writers := 0\<rparr>))\<rparr>
      = ex_fresh8"
    by code_simp
  from release_then_open [OF h1, of ex_env 8 ex_rdwr] h2
  have "pipe_open ex_env 8 ex_rdwr
          (ex_fresh8\<lparr>p_rbuf := None, p_nr_readers := 0, p_nr_writers := 0\<rparr>) =
        (Ok 0, ex_fresh8, [Lock, Unlock])"
    unfolding h3 by blast
  with h1 h2 show ?thesis
    by blast
qed

subsection \<open>The ring-buffer invariant\<close>

text \<open>
  On a pipe as \<open>open\<close> leaves it, no read and no write changes anything: a read finds
  \<open>p_count = 0\<close> and does not get past the wait loop, a write transfers 0 bytes.
\<close>

lemma step_idle:
  assumes "p_count p = 0" and "p_readp p = 0" and "p_writep p = 0" and "p_size p \<noteq> 0"
  shows "step c p = p"
proof (cases c)
  case (Read l s f buf n)
  with assms show ?thesis
    by (cases "f_flags f AND O_NONBLOCK = 0")
      (simp_all add: pipe_read_def alone_def read_wait_unfold)
next
  case (Write l s f buf n)
  from assms have "write_wait f ws p = (Inr (), p, [])" for ws
    by (simp add: write_wait_space)
  with assms Write show ?thesis
    by (simp add: pipe_write_def write_xfer_empty)
qed

lemma run_idle:
  assumes "p_count p = 0" and "p_readp p = 0" and "p_writep p = 0" and "p_size p \<noteq> 0"
  shows "run cs p = p"
  using assms by (induction cs) (simp_all add: step_idle)

lemma pipe_open_fresh:
  assumes "pipe_open e pipe_size f p = (Ok v, p0, tr)"
  shows "p_count p0 = 0 \<and> p_readp p0 = 0 \<and> p_writep p0 = 0 \<and> p_size p0 = pipe_size \<and>
         p_rbuf p0 \<noteq> None"
  using assms by (auto simp add: pipe_open_def Let_def split: if_splits)

text \<open>
  C2. Starting from the pipe a successful \<open>open\<close> leaves (module parameter
  \<open>pipe_size > 0\<close>), after every sequence of reads and writes the count lies in
  \<open>[0, size]\<close> and both offsets lie in \<open>[0, size)\<close>.
\<close>

theorem ring_invariant:
  assumes "pipe_open e pipe_size f p = (Ok v, p0, tr)" and "0 <s pipe_size"
  shows "pipe_inv (run cs p0)"
proof -
  from assms(2) have nz: "pipe_size \<noteq> 0"
    by auto
  from pipe_open_fresh [OF assms(1)] nz have "run cs p0 = p0"
    by (simp add: run_idle)
  with pipe_open_fresh [OF assms(1)] assms(2) show ?thesis
    by (simp add: pipe_inv_def word_sle_eq word_sless_alt)
qed

theorem ring_invariant_witness:
  "pipe_open ex_env 8 ex_rdwr ex_zeroed = (Ok 0, ex_fresh8, [Lock, Unlock]) \<and> 0 <s (8::c_int) \<and>
   pipe_inv (run [Write True False ex_rdwr [1, 2, 3, 4, 5] 5,
                  Read True False ex_nonblock [0, 0, 0] 3,
                  Write True False ex_rdwr [6, 7, 8, 9, 10, 11] 6,
                  Read True True ex_rdwr [0, 0, 0] 3] ex_fresh8)"
proof -
  have h1: "pipe_open ex_env 8 ex_rdwr ex_zeroed = (Ok 0, ex_fresh8, [Lock, Unlock])"
    by code_simp
  have h2: "0 <s (8::c_int)"
    by (simp add: word_sless_alt)
  from ring_invariant [OF h1 h2] h1 h2 show ?thesis
    by blast
qed


subsection \<open>What a write into free space does\<close>

text \<open>Whenever a write returns a count, it is the request clamped to \<open>p_count\<close>.\<close>

lemma write_xfer_returns_clamped:
  "write_xfer p n buf = (Ok c, p', tr) \<Longrightarrow>
   c = (if n > scast (p_count p) then scast (p_count p) else n)"
  by (auto simp add: write_xfer_def Let_def split: if_splits option.splits prod.splits)

text \<open>
  C1. The first write to the freshly opened pipe of size 8 asks for 5 bytes. The pipe
  is not full and its free space is \<open>size - count = 8\<close>, so 5 bytes fit; the call
  transfers \<open>min 5 p_count = 0\<close> bytes and returns 0.
\<close>

theorem write_clamps_to_occupied_count:
  "pipe_open ex_env 8 ex_rdwr ex_zeroed = (Ok 0, ex_fresh8, [Lock, Unlock]) \<and>
   p_count ex_fresh8 \<noteq> p_size ex_fresh8 \<and>
   min (5::nat) (unat (p_size ex_fresh8) - unat (p_count ex_fresh8)) = 5 \<and>
   pipe_write ex_env ex_rdwr ex_fresh8 [1, 2, 3, 4, 5] 5 =
     (Ok 0, ex_fresh8, [Lock, CopyFromUser 0 0 0 0, Unlock, Wake P_readq])"
  by code_simp

text \<open>
  C3. On the freshly opened pipe of size 8, a write of any bytes \<open>S\<close> with any count
  transfers nothing and returns 0, and the read that follows returns no byte of \<open>S\<close>:
  a blocking session sleeps on \<open>p_readq\<close>, a non-blocking one gets \<open>-EAGAIN\<close>; the user
  buffer is left as it was.
\<close>

theorem round_trip_returns_nothing:
  "pipe_write ex_env ex_rdwr ex_fresh8 S n =
     (Ok 0, ex_fresh8, [Lock, CopyFromUser 0 0 0 0, Unlock, Wake P_readq]) \<and>
   pipe_read ex_env ex_rdwr ex_fresh8 buf m =
     (Blocked P_readq, ex_fresh8, buf, [Lock, Unlock, Sleep P_readq]) \<and>
   pipe_read ex_env ex_nonblock ex_fresh8 buf m = (Err EAGAIN, ex_fresh8, buf, [Lock, Unlock])"
proof -
  have c: "p_count ex_fresh8 = 0" and s: "p_size ex_fresh8 \<noteq> 0"
    and o: "\<not> p_readp ex_fresh8 <s p_writep ex_fresh8" and w: "sint (p_writep ex_fresh8) = 0"
    by (simp_all add: ex_fresh8_eq)
  have nb: "f_flags ex_nonblock AND O_NONBLOCK \<noteq> 0" and b: "f_flags ex_rdwr AND O_NONBLOCK = 0"
    by (simp_all add: ex_nonblock_def ex_rdwr_def O_NONBLOCK_def)
  from c s have "write_wait ex_rdwr [] ex_fresh8 = (Inr (), ex_fresh8, [])"
    by (simp add: write_wait_space)
  with c o w have 1: "pipe_write ex_env ex_rdwr ex_fresh8 S n =
     (Ok 0, ex_fresh8, [Lock, CopyFromUser 0 0 0 0, Unlock, Wake P_readq])"
    by (simp add: pipe_write_def ex_env_def write_xfer_empty)
  from c b have 2: "pipe_read ex_env ex_rdwr ex_fresh8 buf m =
     (Blocked P_readq, ex_fresh8, buf, [Lock, Unlock, Sleep P_readq])"
    by (simp add: pipe_read_def ex_env_def read_wait_unfold)
  from c nb have 3: "pipe_read ex_env ex_nonblock ex_fresh8 buf m =
     (Err EAGAIN, ex_fresh8, buf, [Lock, Unlock])"
    by (simp add: pipe_read_def ex_env_def read_wait_nonblock)
  from 1 2 3 show ?thesis
    by blast
qed

subsection \<open>The queue a blocked writer sleeps on\<close>

text \<open>
  Readers and writers alike sleep on \<open>p_readq\<close>; a read that gets as far as its
  wake-up wakes \<open>p_writeq\<close>.
\<close>

lemma read_wait_queue:
  "read_wait f ws p = (r, p1, tr) \<Longrightarrow> Sleep q \<in> set tr \<Longrightarrow> q = P_readq"
proof (induction ws arbitrary: p r p1 tr)
  case Nil
  then show ?case
    by (auto simp add: read_wait_unfold split: if_splits)
next
  case (Cons w ws)
  show ?case
  proof (cases w)
    case Signal
    with Cons.prems show ?thesis
      by (auto simp add: read_wait_unfold split: if_splits)
  next
    case (Woken q' l)
    obtain r' p'' tr' where rw: "read_wait f ws q' = (r', p'', tr')"
      by (cases "read_wait f ws q'") auto
    from Cons.IH [OF rw] Cons.prems Woken rw show ?thesis
      by (auto simp add: read_wait_unfold split: if_splits)
  qed
qed

lemma write_wait_queue:
  "write_wait f ws p = (r, p1, tr) \<Longrightarrow> Sleep q \<in> set tr \<Longrightarrow> q = P_readq"
proof (induction ws arbitrary: p r p1 tr)
  case Nil
  then show ?case
    by (auto simp add: write_wait_unfold split: if_splits)
next
  case (Cons w ws)
  show ?case
  proof (cases w)
    case Signal
    with Cons.prems show ?thesis
      by (auto simp add: write_wait_unfold split: if_splits)
  next
    case (Woken q' l)
    obtain r' p'' tr' where rw: "write_wait f ws q' = (r', p'', tr')"
      by (cases "write_wait f ws q'") auto
    from Cons.IH [OF rw] Cons.prems Woken rw show ?thesis
      by (auto simp add: write_wait_unfold split: if_splits)
  qed
qed

lemma read_xfer_wakes:
  "read_xfer p n buf = (r, p', buf', tr) \<Longrightarrow> Wake q \<in> set tr \<Longrightarrow> q = P_writeq"
  by (auto simp add: read_xfer_def Let_def split: if_splits option.splits prod.splits)

subsection \<open>The wrap-around scenario\<close>

text \<open>
  The two-segment branches store \<open>count - topcount\<close> into the offset (\<open>p_readp\<close> in the
  read, \<open>p_writep\<close> in the write), and the one-segment branch of the write copies at
  \<open>p_writep\<close> whatever the distance to the end of the buffer is. On a value of
  \<open>struct pipe\<close> with \<open>p_writep = 3 < p_readp = 5\<close> and six unread bytes, a value that
  no sequence of calls produces, a read of 2 bytes leaves \<open>p_readp = 0\<close> and a write of
  6 bytes asks for one copy of 6 bytes at offset 3 of the block of 8.
\<close>

lemma wrapped_struct_value:
  "pipe_read ex_env ex_rdwr ex_wrapped [0, 0] 2 =
     (Ok 2, ex_wrapped\<lparr>p_readp := 0, p_count := 4\<rparr>, [16, 17],
      [Lock, CopyToUser 5 0 2 0, Unlock, Wake P_writeq]) \<and>
   pipe_write ex_env ex_rdwr ex_wrapped [1, 2, 3, 4, 5, 6] 6 =
     (Undefined, ex_wrapped, [Lock, Overrun 3 6])"
  by code_simp



end
